theory Spec2Isabelle
  imports Main "HOL-Library.AList" "HOL-Library.Sublist" "HOL-Library.Multiset"
    "HOL-Library.Char_ord" "HOL-Library.List_Lexorder"
begin

section \<open>Async job manager (mcp/async/job-manager-mcp25.js)\<close>

text \<open>
  The manager keeps three pieces of mutable state: the job objects themselves, the
  \<open>jobs\<close> Map from job id to a job object, and the persistence, which stores a shallow
  copy of a job under its id at every \<open>save\<close>. \<open>cancelJob\<close> reaches a job object through
  the Map, the running \<open>executeJob\<close> reaches the same object through its own parameter,
  so objects live in a heap of their own and the Map holds references. Both Maps keep
  insertion order and are association lists. The persistence is the default
  \<open>MemoryJobPersistence\<close>, whose operations do not fail. Clock reads (\<open>new Date()\<close>,
  \<open>Date.now()\<close>) and the identifier drawn from \<open>uuidv4()\<close> are arguments of the operation
  that makes them. Payloads (arguments, results, context) are opaque to the manager: the
  type \<open>'v\<close>. Log lines are left out. Calls of the manager are taken one after the
  other.
\<close>

datatype job_status = Queued | Running | Success | Error | Cancelled

record js_error =
  message :: "string option"
  stack :: "string option"
  code :: "string option"

record 'v job =
  request_id :: string
  job_id :: string
  tool_id :: "string option"
  arguments :: "'v option"
  mode :: "string option"
  status :: job_status
  progress :: int
  progress_message :: "string option"
  job_context :: "'v option"
  created_at :: int
  started_at :: "int option"
  completed_at :: "int option"
  result :: "'v option"
  error :: "js_error option"
  tokens_used :: "int option"

record 'v request =
  req_request_id :: string
  req_tool_id :: "string option"
  req_arguments :: "'v option"
  req_mode :: "string option"
  req_context :: "'v option"
  req_name :: "string option"
  req_method :: "string option"
  req_params :: "'v option"

datatype 'v event =
    JobStarted string
  | JobProgress string int "string option"
  | JobCompleted string 'v
  | JobFailed string js_error
  | JobCancelled string

text \<open>The configuration as passed to the constructor (a missing field is \<open>None\<close>) and
  as stored after the constructor's \<open>x || default\<close> lines.\<close>

record raw_config =
  raw_maxJobs :: "int option"
  raw_jobTTL :: "int option"
  raw_defaultPollInterval :: "int option"

record job_config =
  maxJobs :: int
  jobTTL :: int
  defaultPollInterval :: int

definition or_default :: "int option \<Rightarrow> int \<Rightarrow> int" where
  "or_default x d = (case x of None \<Rightarrow> d | Some n \<Rightarrow> if n = 0 then d else n)"

record 'v manager =
  config :: job_config
  heap :: "nat \<Rightarrow> 'v job option"
  next_ref :: nat
  jobs :: "(string \<times> nat) list"
  persistence :: "(string \<times> 'v job) list"
  events :: "'v event list"

definition constructor :: "raw_config \<Rightarrow> 'v manager" where
  "constructor cfg =
     \<lparr>config = \<lparr>maxJobs = or_default (raw_maxJobs cfg) 1000,
                 jobTTL = or_default (raw_jobTTL cfg) 86400000,
                 defaultPollInterval = or_default (raw_defaultPollInterval cfg) 5\<rparr>,
      heap = (\<lambda>_. None), next_ref = 0, jobs = [], persistence = [], events = []\<rparr>"

subsection \<open>MemoryJobPersistence\<close>

definition save :: "'v manager \<Rightarrow> 'v job \<Rightarrow> 'v manager" where
  "save s j = s\<lparr>persistence := AList.update (job_id j) j (persistence s)\<rparr>"

definition load :: "'v manager \<Rightarrow> string \<Rightarrow> 'v job option" where
  "load s jid = map_of (persistence s) jid"

definition delete :: "'v manager \<Rightarrow> string \<Rightarrow> 'v manager" where
  "delete s jid = s\<lparr>persistence := AList.delete jid (persistence s)\<rparr>"

definition emit :: "'v manager \<Rightarrow> 'v event \<Rightarrow> 'v manager" where
  "emit s e = s\<lparr>events := events s @ [e]\<rparr>"

subsection \<open>executeJob\<close>

text \<open>
  \<open>executeJob(job, executor)\<close> is one asynchronous function; the model has one
  definition for each stretch of it that runs without interruption. \<open>executeJob_start\<close>
  is the part before the executor is called. \<open>onProgress\<close> is the callback handed to the
  executor. \<open>executeJob_resolve\<close> is the continuation after \<open>await executor(...)\<close> when
  the executor returns \<open>result\<close>, \<open>executeJob_reject\<close> the \<open>catch\<close> block when it throws.
  The argument \<open>r\<close> is the reference to the job object that \<open>executeJob\<close> was called with.
  A reference that holds no object (never the case for a reference made by \<open>submitJob\<close>,
  objects are not freed) leaves the state as it is.
\<close>

definition executeJob_start :: "'v manager \<Rightarrow> nat \<Rightarrow> int \<Rightarrow> 'v manager" where
  "executeJob_start s r now =
     (case heap s r of
        None \<Rightarrow> s
      | Some job \<Rightarrow>
          let job' = job\<lparr>status := Running, started_at := Some now\<rparr>;
              s1 = s\<lparr>heap := (heap s)(r \<mapsto> job')\<rparr>;
              s2 = save s1 job'
          in emit s2 (JobStarted (job_id job')))"

definition onProgress :: "'v manager \<Rightarrow> nat \<Rightarrow> int \<Rightarrow> string option \<Rightarrow> 'v manager" where
  "onProgress s r percent msg =
     (case heap s r of
        None \<Rightarrow> s
      | Some job \<Rightarrow>
          let job' = job\<lparr>progress := min 100 (max 0 percent), progress_message := msg\<rparr>;
              s1 = s\<lparr>heap := (heap s)(r \<mapsto> job')\<rparr>;
              s2 = save s1 job'
          in emit s2 (JobProgress (job_id job') (progress job') msg))"

definition executeJob_resolve :: "'v manager \<Rightarrow> nat \<Rightarrow> 'v \<Rightarrow> int \<Rightarrow> 'v manager" where
  "executeJob_resolve s r res now =
     (case heap s r of
        None \<Rightarrow> s
      | Some job \<Rightarrow>
          let job' = job\<lparr>status := Success, result := Some res, progress := 100,
                          completed_at := Some now\<rparr>;
              s1 = s\<lparr>heap := (heap s)(r \<mapsto> job')\<rparr>;
              s2 = save s1 job'
          in emit s2 (JobCompleted (job_id job') res))"

definition executeJob_reject :: "'v manager \<Rightarrow> nat \<Rightarrow> js_error \<Rightarrow> int \<Rightarrow> 'v manager" where
  "executeJob_reject s r err now =
     (case heap s r of
        None \<Rightarrow> s
      | Some job \<Rightarrow>
          let job' = job\<lparr>status := Error,
                          error := Some \<lparr>message = message err, stack = stack err, code = code err\<rparr>,
                          completed_at := Some now\<rparr>;
              s1 = s\<lparr>heap := (heap s)(r \<mapsto> job')\<rparr>;
              s2 = save s1 job'
          in emit s2 (JobFailed (job_id job') err))"

subsection \<open>submitJob, pollJob, resumeJob, cancelJob\<close>

datatype response_status = Resp_success | Resp_error | Resp_in_progress

record handle =
  h_request_id :: string
  h_job_id :: string
  h_status :: response_status
  poll_after :: int
  h_progress :: "(int \<times> string option) option"

text \<open>
  \<open>submitJob_enqueue\<close> is \<open>submitJob\<close> up to and including \<open>this.jobs.set\<close>: the capacity
  check, the new job object, its first \<open>save\<close> and its entry in the Map. It returns the
  reference of the new object. \<open>submitJob\<close> then calls \<open>executeJob\<close> without awaiting it,
  which runs \<open>executeJob_start\<close> before control comes back, and returns the handle.
  \<open>now\<close> is the clock read for \<open>created_at\<close>, \<open>now'\<close> the one for \<open>started_at\<close>.
\<close>

definition new_job :: "'v request \<Rightarrow> string \<Rightarrow> int \<Rightarrow> 'v job" where
  "new_job req uuid now =
     \<lparr>request_id = req_request_id req, job_id = uuid,
      tool_id = req_tool_id req,
      arguments = req_arguments req, mode = req_mode req, status = Queued, progress = 0,
      progress_message = None, job_context = req_context req, created_at = now,
      started_at = None, completed_at = None, result = None, error = None,
      tokens_used = None\<rparr>"

definition submitJob_enqueue ::
  "'v manager \<Rightarrow> 'v request \<Rightarrow> string \<Rightarrow> int \<Rightarrow> string + (nat \<times> 'v manager)" where
  "submitJob_enqueue s req uuid now =
     (if int (length (jobs s)) \<ge> maxJobs (config s)
      then Inl ''Job queue full. Please try again later.''
      else
        let job = new_job req uuid now;
            r = next_ref s;
            s1 = s\<lparr>heap := (heap s)(r \<mapsto> job), next_ref := Suc r\<rparr>;
            s2 = save s1 job;
            s3 = s2\<lparr>jobs := AList.update (job_id job) r (jobs s2)\<rparr>
        in Inr (r, s3))"

definition submitJob ::
  "'v manager \<Rightarrow> 'v request \<Rightarrow> string \<Rightarrow> int \<Rightarrow> int \<Rightarrow> (string + handle) \<times> 'v manager" where
  "submitJob s req uuid now now' =
     (case submitJob_enqueue s req uuid now of
        Inl e \<Rightarrow> (Inl e, s)
      | Inr (r, s3) \<Rightarrow>
          (Inr \<lparr>h_request_id = req_request_id req, h_job_id = uuid, h_status = Resp_in_progress,
                poll_after = defaultPollInterval (config s), h_progress = None\<rparr>,
           executeJob_start s3 r now'))"

definition job_response_status :: "job_status \<Rightarrow> response_status" where
  "job_response_status st =
     (if st = Success then Resp_success else if st = Error then Resp_error
      else Resp_in_progress)"

definition pollJob :: "'v manager \<Rightarrow> string \<Rightarrow> string + handle" where
  "pollJob s jid =
     (case load s jid of
        None \<Rightarrow> Inl (''Job not found: '' @ jid)
      | Some job \<Rightarrow>
          let st = job_response_status (status job) in
          Inr \<lparr>h_request_id = request_id job, h_job_id = job_id job, h_status = st,
               poll_after = (if st = Resp_in_progress then defaultPollInterval (config s) else 0),
               h_progress = (if st = Resp_in_progress
                             then Some (progress job, progress_message job) else None)\<rparr>)"

record 'v resume_result =
  r_request_id :: string
  r_status :: response_status
  r_result :: "'v option"
  r_duration_ms :: "int option"
  r_tokens_used :: "int option"
  r_error :: "(string \<times> string \<times> js_error option) option"
  r_progress :: "(int \<times> string option) option"

definition resumeJob :: "'v manager \<Rightarrow> string \<Rightarrow> string + 'v resume_result" where
  "resumeJob s jid =
     (case load s jid of
        None \<Rightarrow> Inl (''Job not found: '' @ jid)
      | Some job \<Rightarrow>
          let base = \<lparr>r_request_id = request_id job,
                      r_status = job_response_status (status job),
                      r_result = None, r_duration_ms = None, r_tokens_used = None,
                      r_error = None, r_progress = None\<rparr>
          in Inr (if status job = Success
                  then base\<lparr>r_result := result job,
                            r_duration_ms :=
                              (case (completed_at job, started_at job) of
                                 (Some c, Some b) \<Rightarrow> Some (c - b) | _ \<Rightarrow> None),
                            r_tokens_used := tokens_used job\<rparr>
                  else if status job = Error
                  then base\<lparr>r_error :=
                         Some (''EXECUTION_ERROR'',
                               (case error job of
                                  None \<Rightarrow> ''Job execution failed''
                                | Some e \<Rightarrow>
                                    (case message e of
                                       None \<Rightarrow> ''Job execution failed''
                                     | Some m \<Rightarrow> if m = [] then ''Job execution failed'' else m)),
                               error job)\<rparr>
                  else base\<lparr>r_progress := Some (progress job, progress_message job)\<rparr>))"

definition cancelJob :: "'v manager \<Rightarrow> string \<Rightarrow> int \<Rightarrow> bool \<times> 'v manager" where
  "cancelJob s jid now =
     (case map_of (jobs s) jid of
        None \<Rightarrow> (False, s)
      | Some r \<Rightarrow>
          (case heap s r of
             None \<Rightarrow> (False, s)
           | Some job \<Rightarrow>
               if status job = Success \<or> status job = Error then (False, s)
               else
                 let job' = job\<lparr>status := Cancelled, completed_at := Some now\<rparr>;
                     s1 = s\<lparr>heap := (heap s)(r \<mapsto> job')\<rparr>;
                     s2 = save s1 job'
                 in (True, emit s2 (JobCancelled jid))))"

subsection \<open>cleanupExpiredJobs\<close>

fun cleanup_loop :: "int \<Rightarrow> 'v job list \<Rightarrow> nat \<times> 'v manager \<Rightarrow> nat \<times> 'v manager" where
  "cleanup_loop now [] (cleaned, s) = (cleaned, s)"
| "cleanup_loop now (job # rest) (cleaned, s) =
     (if now - created_at job > jobTTL (config s) \<and> status job \<noteq> Running
      then cleanup_loop now rest
             (Suc cleaned, (delete s (job_id job))\<lparr>jobs := AList.delete (job_id job) (jobs s)\<rparr>)
      else cleanup_loop now rest (cleaned, s))"

definition cleanupExpiredJobs :: "'v manager \<Rightarrow> int \<Rightarrow> nat \<times> 'v manager" where
  "cleanupExpiredJobs s now = cleanup_loop now (map snd (persistence s)) (0, s)"

subsection \<open>Interleavings of manager calls\<close>

text \<open>
  The calls that change the manager's state, in the order in which they run. \<open>Progress\<close>,
  \<open>Resolve\<close> and \<open>Reject\<close> are what an executor does to the job object its \<open>executeJob\<close>
  holds; \<open>pollJob\<close> and \<open>resumeJob\<close> change nothing and are not listed.
\<close>

datatype 'v op =
    SubmitJob "'v request" string int int
  | Progress nat int "string option"
  | Resolve nat 'v int
  | Reject nat js_error int
  | CancelJob string int
  | Cleanup int

fun step :: "'v manager \<Rightarrow> 'v op \<Rightarrow> 'v manager" where
  "step s (SubmitJob req uuid now now') = snd (submitJob s req uuid now now')"
| "step s (Progress r percent msg) = onProgress s r percent msg"
| "step s (Resolve r res now) = executeJob_resolve s r res now"
| "step s (Reject r err now) = executeJob_reject s r err now"
| "step s (CancelJob jid now) = snd (cancelJob s jid now)"
| "step s (Cleanup now) = snd (cleanupExpiredJobs s now)"

definition run :: "'v manager \<Rightarrow> 'v op list \<Rightarrow> 'v manager" where
  "run s ops = foldl step s ops"

fun submitted_ids :: "'v op list \<Rightarrow> string list" where
  "submitted_ids [] = []"
| "submitted_ids (SubmitJob req uuid now now' # ops) = uuid # submitted_ids ops"
| "submitted_ids (_ # ops) = submitted_ids ops"

text \<open>An id is unknown to the manager when neither Map has it as a key and no job
  object carries it.\<close>

definition unknown_id :: "'v manager \<Rightarrow> string \<Rightarrow> bool" where
  "unknown_id s jid \<longleftrightarrow>
     jid \<notin> fst ` set (jobs s) \<and> jid \<notin> fst ` set (persistence s) \<and>
     (\<forall>r job. heap s r = Some job \<longrightarrow> job_id job \<noteq> jid)"

text \<open>Concrete inputs used below: two requests, a default configuration, one with
  room for a single job.\<close>

definition request1 :: "string request" where
  "request1 = \<lparr>req_request_id = ''req-1'', req_tool_id = Some ''system/status'',
                req_arguments = Some ''{}'', req_mode = Some ''async'', req_context = None,
                req_name = None, req_method = None, req_params = None\<rparr>"


definition no_config :: raw_config where
  "no_config = \<lparr>raw_maxJobs = None, raw_jobTTL = None, raw_defaultPollInterval = None\<rparr>"

definition one_job_config :: raw_config where
  "one_job_config = \<lparr>raw_maxJobs = Some 1, raw_jobTTL = None, raw_defaultPollInterval = None\<rparr>"

text \<open>A job submitted at time 1000 and cancelled at time 2000, its executor still
  running.\<close>

definition cancelled_in_flight :: "string manager" where
  "cancelled_in_flight =
     run (constructor no_config) [SubmitJob request1 ''job-1'' 1000 1001, CancelJob ''job-1'' 2000]"

section \<open>Version negotiation (mcp/protocol/version-negotiation.js)\<close>

text \<open>
  A handshake field that is missing is \<open>None\<close>; \<open>capabilities\<close> is \<open>None\<close> when it is
  not an array. The negotiator's three fields are its state: \<open>addCapability\<close> and
  \<open>removeCapability\<close> change \<open>serverCapabilities\<close>.
\<close>

record handshake =
  mcp_version :: "string option"
  transport :: "string option"
  capabilities :: "string list option"
  client_id :: "string option"

record negotiator =
  supportedVersions :: "string list"
  serverVersion :: string
  serverCapabilities :: "string list"

definition VersionNegotiator :: negotiator where
  "VersionNegotiator =
     \<lparr>supportedVersions = [''2025-11'', ''2024-11''],
      serverVersion = ''2025-11'',
      serverCapabilities = [''async'', ''registry'', ''code_exec'', ''stream'']\<rparr>"

record negotiation_result =
  n_success :: bool
  agreed_version :: string
  agreed_capabilities :: "string list"
  n_error :: "string option"

record compatibility =
  compatible :: bool
  c_version :: string
  c_error :: "string option"

definition truthy :: "string option \<Rightarrow> bool" where
  "truthy x = (case x of None \<Rightarrow> False | Some v \<Rightarrow> v \<noteq> [])"

definition isValidHandshake :: "handshake \<Rightarrow> bool" where
  "isValidHandshake h \<longleftrightarrow>
     truthy (mcp_version h) \<and> truthy (transport h) \<and> capabilities h \<noteq> None"

text \<open>\<open>version.split('-')\<close>: the pieces between the separators, at least one piece.\<close>

fun split :: "char \<Rightarrow> string \<Rightarrow> string list" where
  "split sep [] = [[]]"
| "split sep (c # cs) =
     (if c = sep then [] # split sep cs
      else (case split sep cs of [] \<Rightarrow> [[c]] | p # ps \<Rightarrow> (c # p) # ps))"

text \<open>
  \<open>Number(piece)\<close>, with \<open>None\<close> for NaN. The empty string converts to 0 and a string of
  decimal digits to its value. Every other string is NaN here: JavaScript also reads
  signs, fractions, exponents, radix prefixes and surrounding blanks, which no piece of a
  version made of digits and \<open>-\<close> contains.
\<close>

definition is_digit :: "char \<Rightarrow> bool" where
  "is_digit c \<longleftrightarrow> 48 \<le> (of_char c :: nat) \<and> (of_char c :: nat) \<le> 57"

definition digit_value :: "char \<Rightarrow> nat" where
  "digit_value c = of_char c - 48"

definition decimal :: "string \<Rightarrow> nat" where
  "decimal ds = foldl (\<lambda>n c. 10 * n + digit_value c) 0 ds"

definition Number :: "string \<Rightarrow> int option" where
  "Number piece =
     (if piece = [] then Some 0
      else if list_all is_digit piece then Some (int (decimal piece))
      else None)"

text \<open>
  \<open>new Date(year, monthIndex, 1)\<close> in local time, read back with \<open>getFullYear\<close> and
  \<open>getMonth\<close>: a year from 0 to 99 means 1900 + year, a month index outside 0..11
  carries into the year, and a NaN argument gives an invalid date, whose getters
  return NaN. Numbers are exact integers: the rounding of \<open>Number\<close> above \<open>2^53\<close> and the
  end of the Date range (beyond the year 275000) are not modelled.
\<close>

datatype js_date = Invalid_Date | Date int int

definition new_Date :: "int option \<Rightarrow> int option \<Rightarrow> js_date" where
  "new_Date year monthIndex =
     (case (year, monthIndex) of
        (Some y, Some m) \<Rightarrow>
          let full = (if 0 \<le> y \<and> y \<le> 99 then 1900 + y else y);
              months = full * 12 + m
          in Date (months div 12) (months mod 12)
      | _ \<Rightarrow> Invalid_Date)"

fun getFullYear :: "js_date \<Rightarrow> int option" where
  "getFullYear Invalid_Date = None"
| "getFullYear (Date y m) = Some y"

fun getMonth :: "js_date \<Rightarrow> int option" where
  "getMonth Invalid_Date = None"
| "getMonth (Date y m) = Some m"

definition parseVersion :: "string \<Rightarrow> js_date" where
  "parseVersion version =
     (case map Number (split CHR ''-'' version) of
        year # month # _ \<Rightarrow> new_Date year (map_option (\<lambda>m. m - 1) month)
      | _ \<Rightarrow> Invalid_Date)"

definition getMonthsDifference :: "js_date \<Rightarrow> js_date \<Rightarrow> int option" where
  "getMonthsDifference date1 date2 =
     (case (getFullYear date2, getFullYear date1, getMonth date2, getMonth date1) of
        (Some y2, Some y1, Some m2, Some m1) \<Rightarrow> Some ((y2 - y1) * 12 + m2 - m1)
      | _ \<Rightarrow> None)"

definition checkVersionCompatibility :: "negotiator \<Rightarrow> string \<Rightarrow> compatibility" where
  "checkVersionCompatibility n clientVersion =
     (if clientVersion = serverVersion n
      then \<lparr>compatible = True, c_version = clientVersion, c_error = None\<rparr>
      else if clientVersion \<in> set (supportedVersions n)
      then \<lparr>compatible = True, c_version = clientVersion, c_error = None\<rparr>
      else
        let clientDate = parseVersion clientVersion;
            serverDate = parseVersion (serverVersion n);
            monthsDiff = getMonthsDifference clientDate serverDate
        in if (case monthsDiff of None \<Rightarrow> False | Some d \<Rightarrow> \<bar>d\<bar> > 1)
           then \<lparr>compatible = False, c_version = serverVersion n,
                 c_error = Some (''Version mismatch: client '' @ clientVersion @ '', server ''
                                 @ serverVersion n @ ''. Difference exceeds 1 cycle.'')\<rparr>
           else \<lparr>compatible = True, c_version = serverVersion n, c_error = None\<rparr>)"

definition negotiateCapabilities :: "negotiator \<Rightarrow> string list \<Rightarrow> string list" where
  "negotiateCapabilities n clientCapabilities =
     filter (\<lambda>cap. cap \<in> set (serverCapabilities n)) clientCapabilities"

text \<open>In \<open>negotiate\<close> a handshake that passes \<open>isValidHandshake\<close> has a version and a
  capability list; the two \<open>None\<close> branches after the check are never taken.\<close>

definition invalid_handshake :: "negotiator \<Rightarrow> negotiation_result" where
  "invalid_handshake n =
     \<lparr>n_success = False, agreed_version = serverVersion n, agreed_capabilities = [],
      n_error = Some ''Invalid handshake structure''\<rparr>"

definition negotiate :: "negotiator \<Rightarrow> handshake \<Rightarrow> negotiation_result" where
  "negotiate n clientHandshake =
     (if \<not> isValidHandshake clientHandshake then invalid_handshake n
      else
        (case mcp_version clientHandshake of
           None \<Rightarrow> invalid_handshake n
         | Some v \<Rightarrow>
             let versionResult = checkVersionCompatibility n v in
             if \<not> compatible versionResult
             then \<lparr>n_success = False, agreed_version = serverVersion n,
                   agreed_capabilities = [], n_error = c_error versionResult\<rparr>
             else
               (case capabilities clientHandshake of
                  None \<Rightarrow> invalid_handshake n
                | Some caps \<Rightarrow>
                    \<lparr>n_success = True, agreed_version = c_version versionResult,
                     agreed_capabilities = negotiateCapabilities n caps, n_error = None\<rparr>)))"

definition addCapability :: "negotiator \<Rightarrow> string \<Rightarrow> negotiator" where
  "addCapability n capability =
     (if capability \<in> set (serverCapabilities n) then n
      else n\<lparr>serverCapabilities := serverCapabilities n @ [capability]\<rparr>)"

definition removeCapability :: "negotiator \<Rightarrow> string \<Rightarrow> negotiator" where
  "removeCapability n capability =
     n\<lparr>serverCapabilities := remove1 capability (serverCapabilities n)\<rparr>"

subsection \<open>The calendar reading of a version\<close>

text \<open>
  A well-formed version token is \<open>YYYY-MM\<close>: four digits, a hyphen, two digits. Its
  month number counts months from year 0; the signed distance between two tokens is the
  difference of their month numbers. These follow the wording of the specification, not
  the code.
\<close>

definition wellformed_version :: "string \<Rightarrow> bool" where
  "wellformed_version v \<longleftrightarrow>
     length v = 7 \<and> list_all is_digit (take 4 v) \<and> v ! 4 = CHR ''-''
     \<and> list_all is_digit (drop 5 v)"

definition month_number :: "string \<Rightarrow> int" where
  "month_number v = int (decimal (take 4 v)) * 12 + int (decimal (drop 5 v))"

definition month_distance :: "string \<Rightarrow> string \<Rightarrow> int" where
  "month_distance v w = month_number w - month_number v"

definition handshake_2024_11 :: handshake where
  "handshake_2024_11 =
     \<lparr>mcp_version = Some ''2024-11'', transport = Some ''stdio'',
      capabilities = Some [''async''], client_id = None\<rparr>"

definition handshake_2023_05 :: handshake where
  "handshake_2023_05 =
     \<lparr>mcp_version = Some ''2023-05'', transport = Some ''stdio'',
      capabilities = Some [''async''], client_id = None\<rparr>"

definition handshake_2025_12 :: handshake where
  "handshake_2025_12 =
     \<lparr>mcp_version = Some ''2025-12'', transport = Some ''http'',
      capabilities = Some [''stream'', ''other'', ''async''], client_id = None\<rparr>"

section \<open>Tool loader (mcp/tools/loader.js)\<close>

record tool_metadata =
  name :: string
  description :: string
  category :: string
  detailLevel :: "string option"
  tags :: "string list option"
  filePath :: string

record search_query =
  q_category :: "string option"
  q_tags :: "string list option"
  q_namePattern :: "string option"
  q_detailLevel :: "string option"

text \<open>
  A tool's schema object, with the fields that \<open>upgradeToolSchema\<close> reads; a field that
  is absent is \<open>None\<close>. \<open>additionalProperties\<close> is a boolean or a schema of its own.
\<close>

datatype 'v additional = Allowed bool | Subschema 'v

record 'v tool_schema =
  dollar_schema :: "string option"
  schema_type :: "string option"
  properties :: "'v option"
  required :: "string list option"
  additionalProperties :: "'v additional option"
  schema_description :: "string option"

text \<open>A loaded tool. The handler gets the arguments and the session id and returns a
  result, or fails with a message.\<close>

record 'v tool =
  tool_name :: string
  tool_description :: string
  inputSchema :: "'v tool_schema"
  outputSchema :: "'v tool_schema option"
  handler :: "'v option \<Rightarrow> string \<Rightarrow> string + 'v"

text \<open>
  What \<open>import(path)\<close> yields: the module's exported values in the order of
  \<open>Object.values\<close>. An exported function is given by its \<open>name\<close> property and by what a
  call of it returns (\<open>None\<close> when the call throws or returns nothing that has a
  \<open>name\<close>); any other export is \<open>Other\<close>.
\<close>

datatype 'v export = Function string "'v tool option" | Other

text \<open>
  The loader's state. Tool objects live in \<open>tool_objects\<close> and \<open>toolCache\<close> maps a name
  to a reference, so that two results can be compared for identity. \<open>imported\<close> and
  \<open>creator_calls\<close> record, in order, every \<open>import\<close> made by \<open>loadTool\<close> and every call
  of a creator function.
\<close>

record 'v loader =
  metadataCache :: "(string \<times> tool_metadata) list"
  toolCache :: "(string \<times> nat) list"
  tool_objects :: "nat \<Rightarrow> 'v tool option"
  next_tool :: nat
  imported :: "string list"
  creator_calls :: "string list"

fun find_creator :: "'v export list \<Rightarrow> (string \<times> 'v tool option) option" where
  "find_creator [] = None"
| "find_creator (Function fname made # exps) =
     (if prefix ''create'' fname then Some (fname, made) else find_creator exps)"
| "find_creator (Other # exps) = find_creator exps"

definition loadTool ::
  "(string \<Rightarrow> 'v export list option) \<Rightarrow> 'v loader \<Rightarrow> string \<Rightarrow> nat option \<times> 'v loader" where
  "loadTool import_module l toolName =
     (case map_of (toolCache l) toolName of
        Some t \<Rightarrow> (Some t, l)
      | None \<Rightarrow>
          (case map_of (metadataCache l) toolName of
             None \<Rightarrow> (None, l)
           | Some metadata \<Rightarrow>
               let l1 = l\<lparr>imported := imported l @ [filePath metadata]\<rparr> in
               (case import_module (filePath metadata) of
                  None \<Rightarrow> (None, l1)
                | Some module \<Rightarrow>
                    (case find_creator module of
                       None \<Rightarrow> (None, l1)
                     | Some (fname, made) \<Rightarrow>
                         let l2 = l1\<lparr>creator_calls := creator_calls l1 @ [fname]\<rparr> in
                         (case made of
                            None \<Rightarrow> (None, l2)
                          | Some tool \<Rightarrow>
                              let t = next_tool l2 in
                              (Some t,
                               l2\<lparr>tool_objects := (tool_objects l2)(t \<mapsto> tool),
                                  next_tool := Suc t,
                                  toolCache := AList.update toolName t (toolCache l2)\<rparr>))))))"

definition clearCache :: "'v loader \<Rightarrow> 'v loader" where
  "clearCache l = l\<lparr>toolCache := []\<rparr>"

definition load_all :: "(string \<Rightarrow> 'v export list option) \<Rightarrow> 'v loader \<Rightarrow> string list \<Rightarrow> 'v loader" where
  "load_all import_module l names = foldl (\<lambda>l' nm. snd (loadTool import_module l' nm)) l names"

subsection \<open>searchTools\<close>

text \<open>
  A character of a string is a UTF-16 code unit below 256, that is, a character of
  Latin-1. On these, \<open>toLowerCase\<close> works code unit by code unit: the capitals A to Z
  (65 to 90) and the accented capitals from 192 to 222, the multiplication sign 215
  apart, go to the code unit 32 above, and every other code unit stays.
\<close>

definition toLowerCase_char :: "char \<Rightarrow> char" where
  "toLowerCase_char c =
     (if (65 \<le> (of_char c :: nat) \<and> (of_char c :: nat) \<le> 90)
         \<or> (192 \<le> (of_char c :: nat) \<and> (of_char c :: nat) \<le> 222 \<and> (of_char c :: nat) \<noteq> 215)
      then char_of ((of_char c :: nat) + 32) else c)"

definition toLowerCase :: "string \<Rightarrow> string" where
  "toLowerCase s = map toLowerCase_char s"

fun includes_str :: "string \<Rightarrow> string \<Rightarrow> bool" where
  "includes_str [] pattern = (pattern = [])"
| "includes_str (c # cs) pattern = (prefix pattern (c # cs) \<or> includes_str cs pattern)"

text \<open>The loop over \<open>metadataCache.values()\<close>; each \<open>continue\<close> goes on with the rest
  and the results as they are.\<close>

fun search_loop ::
  "search_query \<Rightarrow> tool_metadata list \<Rightarrow> tool_metadata list \<Rightarrow> tool_metadata list" where
  "search_loop query [] results = results"
| "search_loop query (metadata # rest) results =
     (if truthy (q_category query) \<and> Some (category metadata) \<noteq> q_category query
      then search_loop query rest results
      else if truthy (q_detailLevel query) \<and> detailLevel metadata \<noteq> q_detailLevel query
      then search_loop query rest results
      else if (case q_tags query of
                 None \<Rightarrow> False
               | Some qtags \<Rightarrow>
                   length qtags > 0
                   \<and> \<not> list_all (\<lambda>tag. tag \<in> set (case tags metadata of None \<Rightarrow> [] | Some ts \<Rightarrow> ts))
                                  qtags)
      then search_loop query rest results
      else if (case q_namePattern query of
                 None \<Rightarrow> False
               | Some np \<Rightarrow>
                   np \<noteq> []
                   \<and> \<not> includes_str (toLowerCase (name metadata)) (toLowerCase np)
                   \<and> \<not> includes_str (toLowerCase (description metadata)) (toLowerCase np))
      then search_loop query rest results
      else search_loop query rest (results @ [metadata]))"

text \<open>
  \<open>results.sort((a, b) => a.name.localeCompare(b.name))\<close>. The collation of
  \<open>localeCompare\<close> belongs to the runtime's locale and is an argument. \<open>Array.sort\<close> is
  stable; for a comparator that is a total preorder every stable sort returns the list
  that insertion from the right returns.
\<close>

fun insert_by :: "(string \<Rightarrow> string \<Rightarrow> int) \<Rightarrow> tool_metadata \<Rightarrow> tool_metadata list \<Rightarrow> tool_metadata list" where
  "insert_by localeCompare a [] = [a]"
| "insert_by localeCompare a (b # bs) =
     (if localeCompare (name a) (name b) \<le> 0 then a # b # bs
      else b # insert_by localeCompare a bs)"

definition sort_by :: "(string \<Rightarrow> string \<Rightarrow> int) \<Rightarrow> tool_metadata list \<Rightarrow> tool_metadata list" where
  "sort_by localeCompare results = foldr (insert_by localeCompare) results []"

definition searchTools ::
  "(string \<Rightarrow> string \<Rightarrow> int) \<Rightarrow> 'v loader \<Rightarrow> search_query \<Rightarrow> tool_metadata list" where
  "searchTools localeCompare l query =
     sort_by localeCompare (search_loop query (map snd (metadataCache l)) [])"

subsection \<open>The filters in the words of the specification\<close>

text \<open>
  Two characters are the same letter when they are equal or one is the capital of the
  other; a pattern occurs in a text without regard to case when some stretch of the text
  has the pattern's length and, place by place, the same letters. A filter is given when
  its field is present and, for a string, not empty. A given category or detail level
  must equal the entry's; every tag of a given tag list must be among the entry's tags;
  a given name pattern must occur, without regard to case, in the entry's name or in its
  description.
\<close>

definition capital_of :: "char \<Rightarrow> char \<Rightarrow> bool" where
  "capital_of C c \<longleftrightarrow>
     (of_char c :: nat) = of_char C + 32
     \<and> (of_char C \<in> {65 .. 90 :: nat} \<or> of_char C \<in> {192 .. 222 :: nat} - {215})"

definition same_letter :: "char \<Rightarrow> char \<Rightarrow> bool" where
  "same_letter c d \<longleftrightarrow> c = d \<or> capital_of c d \<or> capital_of d c"

definition occurs_caseless :: "string \<Rightarrow> string \<Rightarrow> bool" where
  "occurs_caseless pattern text \<longleftrightarrow>
     (\<exists>stretch \<in> set (sublists text). list_all2 same_letter stretch pattern)"

definition satisfies :: "search_query \<Rightarrow> tool_metadata \<Rightarrow> bool" where
  "satisfies query m \<longleftrightarrow>
     (case q_category query of
        None \<Rightarrow> True | Some c \<Rightarrow> c \<noteq> [] \<longrightarrow> category m = c)
     \<and> (case q_detailLevel query of
        None \<Rightarrow> True | Some d \<Rightarrow> d \<noteq> [] \<longrightarrow> detailLevel m = Some d)
     \<and> (case q_tags query of
        None \<Rightarrow> True
      | Some qtags \<Rightarrow>
          (\<forall>tag \<in> set qtags. case tags m of None \<Rightarrow> False | Some ts \<Rightarrow> tag \<in> set ts))
     \<and> (case q_namePattern query of
        None \<Rightarrow> True
      | Some np \<Rightarrow>
          np \<noteq> [] \<longrightarrow> occurs_caseless np (name m) \<or> occurs_caseless np (description m))"

text \<open>What the sort needs of the comparator: any two names are comparable, and the
  comparison is transitive.\<close>

definition total_preorder :: "(string \<Rightarrow> string \<Rightarrow> int) \<Rightarrow> bool" where
  "total_preorder cmp \<longleftrightarrow>
     (\<forall>a b. cmp a b \<le> 0 \<or> cmp b a \<le> 0)
     \<and> (\<forall>a b c. cmp a b \<le> 0 \<and> cmp b c \<le> 0 \<longrightarrow> cmp a c \<le> 0)"

text \<open>
  The order of names by code units is the order \<open>\<le>\<close> of strings. The collation that
  \<open>localeCompare\<close> applies is another order. For two names written with the letters a to
  z and A to Z, the root collation of the runtime's ICU compares them letter by letter
  without regard to case, a shorter name before its extensions, and, when that finds no
  difference, puts the name with the small letter first at the first place where the
  case differs. \<open>letters_collation\<close> gives the sign of that comparison. On names with
  other characters it is a total preorder that is not meant to be the collation.
\<close>

definition letters_collation :: "string \<Rightarrow> string \<Rightarrow> int" where
  "letters_collation a b =
     (if toLowerCase a < toLowerCase b then - 1
      else if toLowerCase b < toLowerCase a then 1
      else if a = b then 0
      else if b < a then - 1
      else 1)"

text \<open>Concrete inputs: three scanned tools, their modules (the second has no creator
  function), a query for the tools tagged both \<open>a\<close> and \<open>b\<close> whose name or description
  contains \<open>STAT\<close>, and a loader that has scanned a tool \<open>Zeta\<close> and a tool \<open>alpha\<close>,
  with the query that has no filter.\<close>

definition status_metadata :: tool_metadata where
  "status_metadata =
     \<lparr>name = ''system/status'', description = ''Get system health'', category = ''system'',
      detailLevel = Some ''standard'', tags = Some [''b'', ''c'', ''a''],
      filePath = ''tools/system/status.js''\<rparr>"

definition list_metadata :: tool_metadata where
  "list_metadata =
     \<lparr>name = ''agents/list'', description = ''List agents and their Status'',
      category = ''agents'', detailLevel = None, tags = Some [''a'', ''b''],
      filePath = ''tools/agents/list.js''\<rparr>"

definition other_metadata :: tool_metadata where
  "other_metadata =
     \<lparr>name = ''memory/stats'', description = ''Memory statistics'', category = ''memory'',
      detailLevel = Some ''standard'', tags = Some [''a''],
      filePath = ''tools/memory/stats.js''\<rparr>"

definition loader1 :: "string loader" where
  "loader1 =
     \<lparr>metadataCache = [(''system/status'', status_metadata), (''agents/list'', list_metadata),
                        (''memory/stats'', other_metadata)],
      toolCache = [], tool_objects = (\<lambda>_. None), next_tool = 0, imported = [],
      creator_calls = []\<rparr>"

definition query_ab :: search_query where
  "query_ab = \<lparr>q_category = None, q_tags = Some [''a'', ''b''],
               q_namePattern = Some ''STAT'', q_detailLevel = None\<rparr>"

definition status_export :: "string tool" where
  "status_export =
     \<lparr>tool_name = ''system/status'', tool_description = ''Get system health status'',
      inputSchema = \<lparr>dollar_schema = None, schema_type = Some ''object'',
                      properties = Some ''{includeMetrics, includeAgents, includeTasks}'',
                      required = Some [], additionalProperties = None,
                      schema_description = None\<rparr>,
      outputSchema = None, handler = (\<lambda>args sid. Inr ''ok'')\<rparr>"

definition zeta_metadata :: tool_metadata where
  "zeta_metadata =
     \<lparr>name = ''Zeta'', description = ''Last tool'', category = ''system'',
      detailLevel = None, tags = None, filePath = ''tools/system/zeta.js''\<rparr>"

definition alpha_metadata :: tool_metadata where
  "alpha_metadata =
     \<lparr>name = ''alpha'', description = ''First tool'', category = ''system'',
      detailLevel = None, tags = None, filePath = ''tools/system/alpha.js''\<rparr>"

definition loader_alpha_zeta :: "string loader" where
  "loader_alpha_zeta =
     \<lparr>metadataCache = [(''Zeta'', zeta_metadata), (''alpha'', alpha_metadata)],
      toolCache = [], tool_objects = (\<lambda>_. None), next_tool = 0, imported = [],
      creator_calls = []\<rparr>"

definition no_filter :: search_query where
  "no_filter = \<lparr>q_category = None, q_tags = None, q_namePattern = None,
                q_detailLevel = None\<rparr>"

definition import1 :: "string \<Rightarrow> string export list option" where
  "import1 path =
     (if path = ''tools/system/status.js''
      then Some [Other, Function ''createSystemStatusTool'' (Some status_export)]
      else if path = ''tools/agents/list.js'' then Some [Other, Function ''helper'' None]
      else None)"

section \<open>Schema validation (mcp/validation/schema-validator-2025.js)\<close>

text \<open>
  \<open>upgradeToolSchema\<close> returns a schema that names the 2020-12 dialect as it is, and
  rebuilds any other schema under the 2020-12 address. The argument \<open>empty_obj\<close> is the
  empty object \<open>{}\<close>.
\<close>

definition upgradeToolSchema :: "'v \<Rightarrow> 'v tool_schema \<Rightarrow> 'v tool_schema" where
  "upgradeToolSchema empty_obj legacySchema =
     (if (case dollar_schema legacySchema of
            None \<Rightarrow> False
          | Some uri \<Rightarrow> uri \<noteq> [] \<and> includes_str uri ''2020-12'')
      then legacySchema
      else
        \<lparr>dollar_schema = Some ''https://json-schema.org/draft/2020-12/schema'',
         schema_type = (if truthy (schema_type legacySchema) then schema_type legacySchema
                        else Some ''object''),
         properties = (case properties legacySchema of None \<Rightarrow> Some empty_obj | Some ps \<Rightarrow> Some ps),
         required = (case required legacySchema of None \<Rightarrow> Some [] | Some rs \<Rightarrow> Some rs),
         additionalProperties =
           (case additionalProperties legacySchema of
              None \<Rightarrow> Some (Allowed False) | Some a \<Rightarrow> Some a),
         schema_description = schema_description legacySchema\<rparr>)"

text \<open>
  An error object of the validation library, with the fields that \<open>getErrorMessage\<close> and
  \<open>formatErrors\<close> read. A parameter is held as the text that a template literal prints
  for it; one that is missing prints as \<open>undefined\<close>.
\<close>

record ajv_error =
  keyword :: string
  ajv_message :: "string option"
  instancePath :: string
  params :: "(string \<times> string) list"
  typeof_data :: string
  allowedValues :: "string list option"

fun join :: "string \<Rightarrow> string list \<Rightarrow> string" where
  "join sep [] = []"
| "join sep [x] = x"
| "join sep (x # y # ys) = x @ sep @ join sep (y # ys)"

definition param :: "ajv_error \<Rightarrow> string \<Rightarrow> string" where
  "param err k = (case map_of (params err) k of None \<Rightarrow> ''undefined'' | Some v \<Rightarrow> v)"

definition getErrorMessage :: "ajv_error \<Rightarrow> string" where
  "getErrorMessage err =
     (if keyword err = ''required''
      then ''Missing required property: '' @ param err ''missingProperty''
      else if keyword err = ''type''
      then ''Expected '' @ param err ''type'' @ '' but got '' @ typeof_data err
      else if keyword err = ''format'' then ''Invalid format for '' @ param err ''format''
      else if keyword err = ''minimum'' then ''Value must be >= '' @ param err ''limit''
      else if keyword err = ''maximum'' then ''Value must be <= '' @ param err ''limit''
      else if keyword err = ''minLength''
      then ''String must be at least '' @ param err ''limit'' @ '' characters''
      else if keyword err = ''maxLength''
      then ''String must be at most '' @ param err ''limit'' @ '' characters''
      else if keyword err = ''pattern''
      then ''String must match pattern: '' @ param err ''pattern''
      else if keyword err = ''enum''
      then ''Value must be one of: ''
           @ (case allowedValues err of None \<Rightarrow> ''undefined'' | Some vs \<Rightarrow> join '', '' vs)
      else if truthy (ajv_message err) then (case ajv_message err of None \<Rightarrow> [] | Some m \<Rightarrow> m)
      else ''Validation failed: '' @ keyword err)"

text \<open>A formatted error is its path and its message.\<close>

definition formatErrors :: "ajv_error list \<Rightarrow> (string \<times> string) list" where
  "formatErrors errs =
     map (\<lambda>err. (if instancePath err = [] then ''/'' else instancePath err, getErrorMessage err))
         errs"

text \<open>
  A compiled validator, applied to a value, returns a boolean and leaves its \<open>errors\<close>
  property set or null, or it throws.
\<close>

datatype validate_result = Returned bool "ajv_error list option" | Thrown

type_synonym 'v validate = "'v option \<Rightarrow> validate_result"

datatype validation = Valid | Invalid "(string \<times> string) list"

text \<open>
  The validator's state is its cache of compiled schemas: schema text, compiled
  validator, time of compilation. What it calls outside itself is an argument:
  \<open>JSON.stringify\<close> on a schema, the clock, and the compiler of the validation library
  for a schema whose dialect the library instance knows (\<open>None\<close> when it throws). The
  instance is made in the constructor from the default export of the \<open>ajv\<close> package,
  which is the draft-07 class: the 2020-12 meta-schema is not among its schemas, and
  compiling a schema whose \<open>$schema\<close> is its address throws
  (\<open>no schema with key or ref\<close>).
\<close>

record 'v validator =
  schemaCache :: "(string \<times> 'v validate \<times> int) list"

record 'v library =
  stringify :: "'v tool_schema \<Rightarrow> string"
  ajv_compile :: "'v tool_schema \<Rightarrow> 'v validate option"
  Date_now :: int


definition cacheTTL :: int where
  "cacheTTL = 3600000"

definition compile :: "'v library \<Rightarrow> 'v tool_schema \<Rightarrow> 'v validate option" where
  "compile lib schema =
     (if dollar_schema schema = Some ''https://json-schema.org/draft/2020-12/schema''
      then None
      else ajv_compile lib schema)"

definition getValidator ::
  "'v library \<Rightarrow> 'v validator \<Rightarrow> 'v tool_schema \<Rightarrow> 'v validate option \<times> 'v validator" where
  "getValidator lib v schema =
     (let schemaKey = stringify lib schema;
          fresh = (case map_of (schemaCache v) schemaKey of
                     None \<Rightarrow> None
                   | Some (validate, timestamp) \<Rightarrow>
                       if Date_now lib - timestamp < cacheTTL then Some validate else None)
      in case fresh of
           Some validate \<Rightarrow> (Some validate, v)
         | None \<Rightarrow>
             (case compile lib schema of
                None \<Rightarrow> (None, v)
              | Some validate \<Rightarrow>
                  (Some validate,
                   v\<lparr>schemaCache :=
                       AList.update schemaKey (validate, Date_now lib) (schemaCache v)\<rparr>)))"

definition validateInput ::
  "'v library \<Rightarrow> 'v validator \<Rightarrow> 'v tool_schema \<Rightarrow> 'v option \<Rightarrow> validation \<times> 'v validator" where
  "validateInput lib v schema input =
     (case getValidator lib v schema of
        (None, v') \<Rightarrow> (Invalid [([], ''Schema validation failed'')], v')
      | (Some validate, v') \<Rightarrow>
          (case validate input of
             Thrown \<Rightarrow> (Invalid [([], ''Schema validation failed'')], v')
           | Returned valid errors \<Rightarrow>
               (case errors of
                  Some errs \<Rightarrow> if \<not> valid then (Invalid (formatErrors errs), v') else (Valid, v')
                | None \<Rightarrow> (Valid, v'))))"


section \<open>Protocol server (mcp/server-mcp-2025.js)\<close>

text \<open>
  The server's state, as far as \<open>handleToolCall\<close> reads or writes it: the sessions, the
  job manager (absent when async jobs are disabled), the schema validator and the
  validation switch. What it calls outside itself is an argument: the registry's
  \<open>getTool\<close>, what the schema validator calls, the empty object, the identifier from
  \<open>uuidv4()\<close> and the clock reads. A failed output validation is logged and changes no
  result.
\<close>

record session =
  clientId :: string
  version :: string
  session_capabilities :: "string list"
  isLegacy :: bool

record 'v server =
  sessions :: "(string \<times> session) list"
  jobManager :: "'v manager option"
  schemaValidator :: "'v validator"
  validation_enabled :: bool

record 'v outside =
  getTool :: "string \<Rightarrow> 'v tool option"
  library :: "'v library"
  empty_object :: 'v
  uuidv4 :: string
  created_now :: int
  started_now :: int
  startTime :: int
  endTime :: int










section \<open>Properties of the job manager\<close>

subsection \<open>Ids that were never submitted\<close>

lemma unknown_constructor: "unknown_id (constructor cfg) jid"
  by (simp add: unknown_id_def constructor_def)

lemma unknown_save:
  "unknown_id s jid \<Longrightarrow> job_id j \<noteq> jid \<Longrightarrow> unknown_id (save s j) jid"
  by (auto simp: unknown_id_def save_def dom_update)

lemma unknown_emit: "unknown_id s jid \<Longrightarrow> unknown_id (emit s e) jid"
  by (simp add: unknown_id_def emit_def)

lemma unknown_heap_upd:
  "unknown_id s jid \<Longrightarrow> job_id j \<noteq> jid \<Longrightarrow> unknown_id (s\<lparr>heap := (heap s)(r \<mapsto> j)\<rparr>) jid"
  by (simp add: unknown_id_def)

lemma unknown_heapD: "unknown_id s jid \<Longrightarrow> heap s r = Some j \<Longrightarrow> job_id j \<noteq> jid"
  by (simp add: unknown_id_def)

lemma unknown_start: "unknown_id s jid \<Longrightarrow> unknown_id (executeJob_start s r now) jid"
  by (auto simp: executeJob_start_def Let_def split: option.splits
      intro!: unknown_emit unknown_save unknown_heap_upd dest: unknown_heapD)

lemma unknown_progress: "unknown_id s jid \<Longrightarrow> unknown_id (onProgress s r p m) jid"
  by (auto simp: onProgress_def Let_def split: option.splits
      intro!: unknown_emit unknown_save unknown_heap_upd dest: unknown_heapD)

lemma unknown_resolve: "unknown_id s jid \<Longrightarrow> unknown_id (executeJob_resolve s r v now) jid"
  by (auto simp: executeJob_resolve_def Let_def split: option.splits
      intro!: unknown_emit unknown_save unknown_heap_upd dest: unknown_heapD)

lemma unknown_reject: "unknown_id s jid \<Longrightarrow> unknown_id (executeJob_reject s r e now) jid"
  by (auto simp: executeJob_reject_def Let_def split: option.splits
      intro!: unknown_emit unknown_save unknown_heap_upd dest: unknown_heapD)

lemma unknown_cancel: "unknown_id s jid \<Longrightarrow> unknown_id (snd (cancelJob s k now)) jid"
  by (auto simp: cancelJob_def Let_def split: option.splits
      intro!: unknown_emit unknown_save unknown_heap_upd dest: unknown_heapD)

lemma unknown_submit:
  "unknown_id s jid \<Longrightarrow> uuid \<noteq> jid \<Longrightarrow> unknown_id (snd (submitJob s req uuid now now')) jid"
  unfolding submitJob_def submitJob_enqueue_def
  apply (auto simp: Let_def split: sum.splits prod.splits if_splits)
  apply (rule unknown_start)
  apply (auto simp: unknown_id_def save_def dom_update new_job_def)
  done

lemma unknown_cleanup_loop:
  "unknown_id (snd acc) jid \<Longrightarrow> unknown_id (snd (cleanup_loop now js acc)) jid"
proof (induction js arbitrary: acc)
  case Nil
  then show ?case by (cases acc) simp
next
  case (Cons j js)
  obtain c s where acc: "acc = (c, s)" by (cases acc)
  have "unknown_id ((delete s (job_id j))\<lparr>jobs := AList.delete (job_id j) (jobs s)\<rparr>) jid"
    using Cons.prems acc dom_delete_subset[of "job_id j" "jobs s"]
      dom_delete_subset[of "job_id j" "persistence s"]
    by (auto simp: unknown_id_def delete_def)
  with Cons show ?case by (simp add: acc)
qed

lemma unknown_cleanup: "unknown_id s jid \<Longrightarrow> unknown_id (snd (cleanupExpiredJobs s now)) jid"
  by (simp add: cleanupExpiredJobs_def unknown_cleanup_loop)

lemma unknown_step:
  "unknown_id s jid \<Longrightarrow> jid \<notin> set (submitted_ids [x]) \<Longrightarrow> unknown_id (step s x) jid"
  by (cases x) (auto intro: unknown_submit unknown_progress unknown_resolve unknown_reject
      unknown_cancel unknown_cleanup)

lemma submitted_ids_Cons:
  "set (submitted_ids (x # ops)) = set (submitted_ids [x]) \<union> set (submitted_ids ops)"
  by (cases x) auto

lemma unknown_run:
  "unknown_id s jid \<Longrightarrow> jid \<notin> set (submitted_ids ops) \<Longrightarrow> unknown_id (run s ops) jid"
proof (induction ops arbitrary: s)
  case Nil
  then show ?case by (simp add: run_def)
next
  case (Cons x ops)
  from Cons.prems(2) have a: "jid \<notin> set (submitted_ids [x])" and b: "jid \<notin> set (submitted_ids ops)"
    using submitted_ids_Cons[of x ops] by auto
  have "unknown_id (step s x) jid" using Cons.prems(1) a by (rule unknown_step)
  from Cons.IH[OF this b] show ?case by (simp add: run_def)
qed

lemma map_of_None_keys: "k \<notin> fst ` set al \<Longrightarrow> map_of al k = None"
  by (simp add: map_of_eq_None_iff)

text \<open>
  C10: for a job id that no \<open>submitJob\<close> call of the manager's history has handed out,
  \<open>cancelJob\<close> returns false and leaves the whole state as it is, while \<open>pollJob\<close> and
  \<open>resumeJob\<close> fail with \<open>Job not found: <id>\<close>. The history is any sequence of
  submissions, executor progress, completions and failures, cancellations and cleanup
  sweeps, starting from a new manager.
\<close>

theorem cancelJob_unknown_id:
  assumes "jid \<notin> set (submitted_ids ops)"
  shows "cancelJob (run (constructor cfg) ops) jid now = (False, run (constructor cfg) ops)
       \<and> pollJob (run (constructor cfg) ops) jid = Inl (''Job not found: '' @ jid)
       \<and> resumeJob (run (constructor cfg) ops) jid = Inl (''Job not found: '' @ jid)"
proof -
  have "unknown_id (run (constructor cfg) ops) jid"
    using unknown_constructor assms by (rule unknown_run)
  then show ?thesis
    by (simp add: unknown_id_def cancelJob_def pollJob_def resumeJob_def load_def map_of_None_keys)
qed

theorem cancelJob_unknown_id_witness:
  "''job-2'' \<notin> set (submitted_ids [SubmitJob request1 ''job-1'' 1000 1001, CancelJob ''job-1'' 2000])
   \<and> cancelJob cancelled_in_flight ''job-2'' 3000 = (False, cancelled_in_flight)
   \<and> pollJob cancelled_in_flight ''job-2'' = Inl ''Job not found: job-2''
   \<and> resumeJob cancelled_in_flight ''job-2'' = Inl ''Job not found: job-2''"
  using cancelJob_unknown_id[of "''job-2''"
      "[SubmitJob request1 ''job-1'' 1000 1001, CancelJob ''job-1'' 2000]" no_config 3000]
  by (simp add: cancelled_in_flight_def)

subsection \<open>submitJob\<close>

lemmas manager_defs = run_def constructor_def no_config_def one_job_config_def request1_def
  submitJob_def submitJob_enqueue_def new_job_def executeJob_start_def save_def emit_def
  cancelJob_def or_default_def Let_def load_def pollJob_def executeJob_resolve_def
  job_response_status_def cancelled_in_flight_def






subsection \<open>A job that was cancelled while its executor runs\<close>

text \<open>
  C1: a completion that arrives after the cancellation is not treated as a no-op. The
  job submitted at 1000 and cancelled at 2000 is stored as \<open>cancelled\<close> with
  \<open>completed_at\<close> 2000 and no result. When its executor then returns \<open>done\<close> at 3000,
  \<open>executeJob\<close> stores status \<open>success\<close>, the result and \<open>completed_at\<close> 3000, and emits
  \<open>job:completed\<close> after \<open>job:cancelled\<close>; when the executor throws instead, it stores
  status \<open>error\<close> and \<open>completed_at\<close> 3000.
\<close>

theorem completion_after_cancel_overwrites:
  "map_option (\<lambda>j. (status j, completed_at j, result j)) (load cancelled_in_flight ''job-1'')
     = Some (Cancelled, Some 2000, None)
   \<and> map_of (jobs cancelled_in_flight) ''job-1'' = Some 0
   \<and> map_option (\<lambda>j. (status j, completed_at j, result j))
        (load (executeJob_resolve cancelled_in_flight 0 ''done'' 3000) ''job-1'')
     = Some (Success, Some 3000, Some ''done'')
   \<and> events (executeJob_resolve cancelled_in_flight 0 ''done'' 3000)
     = [JobStarted ''job-1'', JobCancelled ''job-1'', JobCompleted ''job-1'' ''done'']
   \<and> map_option (\<lambda>j. (status j, completed_at j))
        (load (executeJob_reject cancelled_in_flight 0
                 \<lparr>message = Some ''boom'', stack = None, code = None\<rparr> 3000) ''job-1'')
     = Some (Error, Some 3000)"
  by (simp add: manager_defs executeJob_reject_def)

text \<open>
  C2: \<open>cancelJob\<close> on a job that is already \<open>cancelled\<close> does not return false. For the
  job cancelled at 2000, a second \<open>cancelJob\<close> at 5000 returns true, stores
  \<open>completed_at\<close> 5000 in place of 2000 and emits \<open>job:cancelled\<close> a second time.
\<close>

theorem cancelJob_on_cancelled_job:
  "map_option (\<lambda>j. (status j, completed_at j)) (load cancelled_in_flight ''job-1'')
     = Some (Cancelled, Some 2000)
   \<and> fst (cancelJob cancelled_in_flight ''job-1'' 5000) = True
   \<and> map_option (\<lambda>j. (status j, completed_at j))
        (load (snd (cancelJob cancelled_in_flight ''job-1'' 5000)) ''job-1'')
     = Some (Cancelled, Some 5000)
   \<and> events (snd (cancelJob cancelled_in_flight ''job-1'' 5000))
     = [JobStarted ''job-1'', JobCancelled ''job-1'', JobCancelled ''job-1'']"
  by (simp add: manager_defs)

text \<open>
  C4: \<open>pollJob\<close> on a \<open>cancelled\<close> job does not return \<open>poll_after\<close> 0. For the job
  cancelled at 2000 it returns status \<open>in_progress\<close>, the configured poll interval 5
  and a progress snapshot.
\<close>

theorem pollJob_on_cancelled_job:
  "map_option status (load cancelled_in_flight ''job-1'') = Some Cancelled
   \<and> pollJob cancelled_in_flight ''job-1'' =
       Inr \<lparr>h_request_id = ''req-1'', h_job_id = ''job-1'', h_status = Resp_in_progress,
            poll_after = 5, h_progress = Some (0, None)\<rparr>"
  by (simp add: manager_defs)

section \<open>Properties of the version negotiation\<close>

lemma decimal_snoc: "decimal (ds @ [c]) = 10 * decimal ds + digit_value c"
  by (simp add: decimal_def)

lemma digit_value_le: "is_digit c \<Longrightarrow> digit_value c \<le> 9"
  unfolding is_digit_def digit_value_def by linarith

lemma decimal_bound: "list_all is_digit ds \<Longrightarrow> decimal ds < 10 ^ length ds"
proof (induction ds rule: rev_induct)
  case Nil
  then show ?case by (simp add: decimal_def)
next
  case (snoc c ds)
  then have "decimal ds < 10 ^ length ds" and "digit_value c \<le> 9"
    by (simp_all add: digit_value_le)
  then show ?case by (simp add: decimal_snoc)
qed

lemma hyphen_not_digit: "\<not> is_digit CHR ''-''"
  by (simp add: is_digit_def)

lemma split_digits: "list_all is_digit ds \<Longrightarrow> split CHR ''-'' ds = [ds]"
  by (induction ds) (auto simp: hyphen_not_digit)

lemma split_token:
  "list_all is_digit a \<Longrightarrow> list_all is_digit b \<Longrightarrow>
   split CHR ''-'' (a @ CHR ''-'' # b) = [a, b]"
  by (induction a) (auto simp: hyphen_not_digit split_digits)

lemma wellformed_parts:
  assumes "wellformed_version v"
  shows "v = take 4 v @ CHR ''-'' # drop 5 v" "length (take 4 v) = 4" "length (drop 5 v) = 2"
    "list_all is_digit (take 4 v)" "list_all is_digit (drop 5 v)"
proof -
  from assms have len: "length v = 7" and h: "v ! 4 = CHR ''-''"
    by (simp_all add: wellformed_version_def)
  have "v = take 4 v @ drop 4 v" by simp
  also have "drop 4 v = v ! 4 # drop 5 v"
    using Cons_nth_drop_Suc[of 4 v] len by simp
  finally show "v = take 4 v @ CHR ''-'' # drop 5 v" using h by simp
  show "length (take 4 v) = 4" "length (drop 5 v) = 2" using len by simp_all
  show "list_all is_digit (take 4 v)" "list_all is_digit (drop 5 v)"
    using assms by (simp_all add: wellformed_version_def)
qed

lemma parseVersion_wellformed:
  assumes "wellformed_version v"
  shows "parseVersion v =
           new_Date (Some (int (decimal (take 4 v)))) (Some (int (decimal (drop 5 v)) - 1))"
proof -
  note p = wellformed_parts[OF assms]
  have ne: "take 4 v \<noteq> []" "drop 5 v \<noteq> []" using p(2,3) by auto
  have "split CHR ''-'' v = [take 4 v, drop 5 v]"
    using split_token[OF p(4) p(5)] p(1) by simp
  then show ?thesis
    using ne p(4,5) by (simp add: parseVersion_def Number_def)
qed

lemma parse_server: "parseVersion ''2025-11'' = Date 2025 10"
  by (simp add: parseVersion_def Number_def is_digit_def decimal_def digit_value_def new_Date_def)

lemma monthsDifference_new_Date:
  "getMonthsDifference (new_Date (Some y) (Some m)) (Date 2025 10) =
     Some (24310 - ((if 0 \<le> y \<and> y \<le> 99 then 1900 + y else y) * 12 + m))"
proof -
  define k where "k = (if 0 \<le> y \<and> y \<le> 99 then 1900 + y else y) * 12 + m"
  have "(2025 - k div 12) * 12 + 10 - k mod 12 = 24310 - k"
    by (simp add: algebra_simps)
  then show ?thesis
    by (simp add: getMonthsDifference_def new_Date_def Let_def k_def)
qed

lemma server_month_number: "month_number ''2025-11'' = 24311"
  by (simp add: month_number_def decimal_def digit_value_def)

lemma check_far:
  assumes wf: "wellformed_version v"
    and sv: "serverVersion n = ''2025-11''"
    and notin: "v \<notin> set (supportedVersions n)" and ne: "v \<noteq> ''2025-11''"
  shows "checkVersionCompatibility n v =
    (if \<bar>month_distance v ''2025-11''\<bar> > 1
     then \<lparr>compatible = False, c_version = ''2025-11'',
           c_error = Some (''Version mismatch: client '' @ v @ '', server ''
                                 @ ''2025-11'' @ ''. Difference exceeds 1 cycle.'')\<rparr>
     else \<lparr>compatible = True, c_version = ''2025-11'', c_error = None\<rparr>)"
proof -
  define y where "y = int (decimal (take 4 v))"
  define m where "m = int (decimal (drop 5 v))"
  note p = wellformed_parts[OF wf]
  have yb: "0 \<le> y" "y < 10000" using decimal_bound[OF p(4)] p(2) by (simp_all add: y_def)
  have mb: "0 \<le> m" "m < 100" using decimal_bound[OF p(5)] p(3) by (simp_all add: m_def)
  have diff: "getMonthsDifference (parseVersion v) (parseVersion ''2025-11'') =
     Some (24310 - ((if 0 \<le> y \<and> y \<le> 99 then 1900 + y else y) * 12 + (m - 1)))"
    by (simp only: parseVersion_wellformed[OF wf] parse_server monthsDifference_new_Date y_def m_def)
  have dist: "month_distance v ''2025-11'' = 24311 - (y * 12 + m)"
    by (simp add: month_distance_def server_month_number) (simp add: month_number_def y_def m_def)
  have eqv: "(\<bar>24310 - ((if 0 \<le> y \<and> y \<le> 99 then 1900 + y else y) * 12 + (m - 1))\<bar> > 1)
        = (\<bar>24311 - (y * 12 + m)\<bar> > 1)"
    using yb mb by auto
  have cond: "(case getMonthsDifference (parseVersion v) (parseVersion ''2025-11'') of
                 None \<Rightarrow> False | Some d \<Rightarrow> \<bar>d\<bar> > 1)
              = (\<bar>month_distance v ''2025-11''\<bar> > 1)"
    unfolding diff dist option.case eqv ..
  show ?thesis
    using notin ne unfolding checkVersionCompatibility_def sv Let_def cond by simp
qed

lemmas negotiation_defs = VersionNegotiator_def handshake_2023_05_def handshake_2025_12_def handshake_2024_11_def
  wellformed_version_def is_digit_def month_distance_def month_number_def decimal_def digit_value_def truthy_def

text \<open>
  C3, as stated, fails: the version \<open>2024-11\<close> is a well-formed token twelve months
  away from the server's \<open>2025-11\<close>, and the negotiation of a valid handshake carrying
  it succeeds, without error, on the client's version, because \<open>2024-11\<close> is in
  \<open>supportedVersions\<close>.
\<close>

theorem negotiate_2024_11_counterexample:
  "wellformed_version ''2024-11''
   \<and> isValidHandshake handshake_2024_11
   \<and> mcp_version handshake_2024_11 = Some ''2024-11''
   \<and> month_distance ''2024-11'' (serverVersion VersionNegotiator) = 12
   \<and> n_success (negotiate VersionNegotiator handshake_2024_11)
   \<and> n_error (negotiate VersionNegotiator handshake_2024_11) = None
   \<and> agreed_version (negotiate VersionNegotiator handshake_2024_11) = ''2024-11''"
  by (simp add: negotiation_defs isValidHandshake_def negotiate_def checkVersionCompatibility_def Let_def
      negotiateCapabilities_def)

text \<open>
  C3, amended: for a valid handshake whose version is a well-formed \<open>YYYY-MM\<close> token,
  against the server version \<open>2025-11\<close>. A version outside \<open>supportedVersions\<close> that is
  more than one month away fails with \<open>success\<close> false and a non-empty error; a version
  outside \<open>supportedVersions\<close> within one month succeeds and the agreed version is the
  server's; a version in \<open>supportedVersions\<close> succeeds with the client's version as the
  agreed version, at any distance.
\<close>

theorem negotiate_version_distance:
  assumes sv: "serverVersion n = ''2025-11''"
    and v: "mcp_version h = Some v" and wf: "wellformed_version v"
    and tr: "truthy (transport h)" and caps: "capabilities h = Some caps"
  shows "(v \<notin> set (supportedVersions n) \<and> \<bar>month_distance v (serverVersion n)\<bar> > 1 \<longrightarrow>
            \<not> n_success (negotiate n h) \<and> (\<exists>e. n_error (negotiate n h) = Some e \<and> e \<noteq> []))
       \<and> (v \<notin> set (supportedVersions n) \<and> \<bar>month_distance v (serverVersion n)\<bar> \<le> 1 \<longrightarrow>
            n_success (negotiate n h) \<and> agreed_version (negotiate n h) = serverVersion n)
       \<and> (v \<in> set (supportedVersions n) \<longrightarrow>
            n_success (negotiate n h) \<and> agreed_version (negotiate n h) = v)"
proof -
  have nonempty: "v \<noteq> []" using wf by (auto simp: wellformed_version_def)
  have valid: "isValidHandshake h"
    using v tr caps nonempty by (simp add: isValidHandshake_def truthy_def)
  have neg: "negotiate n h =
      (if \<not> compatible (checkVersionCompatibility n v)
       then \<lparr>n_success = False, agreed_version = serverVersion n,
             agreed_capabilities = [], n_error = c_error (checkVersionCompatibility n v)\<rparr>
       else \<lparr>n_success = True, agreed_version = c_version (checkVersionCompatibility n v),
             agreed_capabilities = negotiateCapabilities n caps, n_error = None\<rparr>)"
    using valid v caps by (simp add: negotiate_def Let_def)
  have same: "v = ''2025-11'' \<Longrightarrow> checkVersionCompatibility n v =
      \<lparr>compatible = True, c_version = v, c_error = None\<rparr>"
    by (simp add: checkVersionCompatibility_def sv)
  have listed: "v \<in> set (supportedVersions n) \<Longrightarrow> checkVersionCompatibility n v =
      \<lparr>compatible = True, c_version = v, c_error = None\<rparr>"
    by (simp add: checkVersionCompatibility_def)
  have zero: "month_distance ''2025-11'' ''2025-11'' = 0" by (simp add: month_distance_def)
  show ?thesis
  proof (intro conjI impI)
    assume a: "v \<notin> set (supportedVersions n) \<and> \<bar>month_distance v (serverVersion n)\<bar> > 1"
    then have "v \<noteq> ''2025-11''" using zero sv by auto
    with a have c: "checkVersionCompatibility n v =
        \<lparr>compatible = False, c_version = ''2025-11'',
           c_error = Some (''Version mismatch: client '' @ v @ '', server ''
                                 @ ''2025-11'' @ ''. Difference exceeds 1 cycle.'')\<rparr>"
      using check_far[OF wf sv] sv by simp
    show "\<not> n_success (negotiate n h)" by (simp add: neg c)
    show "\<exists>e. n_error (negotiate n h) = Some e \<and> e \<noteq> []" by (simp add: neg c)
  next
    assume a: "v \<notin> set (supportedVersions n) \<and> \<bar>month_distance v (serverVersion n)\<bar> \<le> 1"
    have c: "compatible (checkVersionCompatibility n v)
           \<and> c_version (checkVersionCompatibility n v) = ''2025-11''"
    proof (cases "v = ''2025-11''")
      case True
      then show ?thesis using same by simp
    next
      case False
      then show ?thesis using check_far[OF wf sv] a sv by simp
    qed
    show "n_success (negotiate n h)" by (simp add: neg c)
    show "agreed_version (negotiate n h) = serverVersion n" by (simp add: neg c sv)
  next
    assume a: "v \<in> set (supportedVersions n)"
    show "n_success (negotiate n h)" by (simp add: neg listed[OF a])
    show "agreed_version (negotiate n h) = v" by (simp add: neg listed[OF a])
  qed
qed

theorem negotiate_version_distance_witness:
  "wellformed_version ''2023-05'' \<and> wellformed_version ''2025-12''
   \<and> ''2023-05'' \<notin> set (supportedVersions VersionNegotiator)
   \<and> ''2025-12'' \<notin> set (supportedVersions VersionNegotiator)
   \<and> \<bar>month_distance ''2023-05'' (serverVersion VersionNegotiator)\<bar> > 1
   \<and> \<bar>month_distance ''2025-12'' (serverVersion VersionNegotiator)\<bar> \<le> 1
   \<and> \<not> n_success (negotiate VersionNegotiator handshake_2023_05)
   \<and> (\<exists>e. n_error (negotiate VersionNegotiator handshake_2023_05) = Some e \<and> e \<noteq> [])
   \<and> n_success (negotiate VersionNegotiator handshake_2025_12)
   \<and> agreed_version (negotiate VersionNegotiator handshake_2025_12) = ''2025-11''
   \<and> n_success (negotiate VersionNegotiator handshake_2024_11)
   \<and> agreed_version (negotiate VersionNegotiator handshake_2024_11) = ''2024-11''"
  using negotiate_version_distance[of VersionNegotiator handshake_2023_05 "''2023-05''" "[''async'']"]
    negotiate_version_distance[of VersionNegotiator handshake_2025_12 "''2025-12''" "[''stream'', ''other'', ''async'']"]
    negotiate_version_distance[of VersionNegotiator handshake_2024_11 "''2024-11''" "[''async'']"]
  by (simp add: negotiation_defs)

text \<open>
  C5: the capabilities that \<open>negotiateCapabilities\<close> returns for a client list \<open>A\<close> are,
  as a set, the intersection of \<open>A\<close> with the server's capabilities; client and server
  lists with the same elements in another order give the same set; and a successful
  \<open>negotiate\<close> returns this set as \<open>agreed_capabilities\<close>.
\<close>

theorem negotiateCapabilities_intersection:
  "set (negotiateCapabilities n A) = set A \<inter> set (serverCapabilities n)
   \<and> (set A' = set A \<and> set (serverCapabilities n') = set (serverCapabilities n) \<longrightarrow>
        set (negotiateCapabilities n' A') = set (negotiateCapabilities n A))
   \<and> (n_success (negotiate n h) \<and> capabilities h = Some A \<longrightarrow>
        set (agreed_capabilities (negotiate n h)) = set A \<inter> set (serverCapabilities n))"
proof -
  have inter: "\<And>m B. set (negotiateCapabilities m B) = set B \<inter> set (serverCapabilities m)"
    by (auto simp: negotiateCapabilities_def)
  have "n_success (negotiate n h) \<Longrightarrow> capabilities h = Some A \<Longrightarrow>
        agreed_capabilities (negotiate n h) = negotiateCapabilities n A"
    by (auto simp: negotiate_def invalid_handshake_def Let_def split: if_splits option.splits)
  then show ?thesis using inter by auto
qed

theorem negotiateCapabilities_intersection_witness:
  "set [''async'', ''stream'', ''other''] = set [''stream'', ''other'', ''async'']
   \<and> set (serverCapabilities (VersionNegotiator\<lparr>serverCapabilities := [''stream'', ''code_exec'', ''registry'', ''async'']\<rparr>))
       = set (serverCapabilities VersionNegotiator)
   \<and> n_success (negotiate VersionNegotiator handshake_2025_12)
   \<and> capabilities handshake_2025_12 = Some [''stream'', ''other'', ''async'']
   \<and> negotiateCapabilities VersionNegotiator [''stream'', ''other'', ''async''] = [''stream'', ''async'']
   \<and> set (negotiateCapabilities (VersionNegotiator\<lparr>serverCapabilities := [''stream'', ''code_exec'', ''registry'', ''async'']\<rparr>)
            [''async'', ''stream'', ''other''])
       = set (negotiateCapabilities VersionNegotiator [''stream'', ''other'', ''async''])
   \<and> set (agreed_capabilities (negotiate VersionNegotiator handshake_2025_12))
       = set [''stream'', ''other'', ''async''] \<inter> set (serverCapabilities VersionNegotiator)"
proof -
  have a: "set [''async'', ''stream'', ''other''] = set [''stream'', ''other'', ''async'']"
    by auto
  have b: "set (serverCapabilities (VersionNegotiator\<lparr>serverCapabilities := [''stream'', ''code_exec'', ''registry'', ''async'']\<rparr>))
       = set (serverCapabilities VersionNegotiator)"
    by (auto simp: VersionNegotiator_def)
  have c: "n_success (negotiate VersionNegotiator handshake_2025_12)"
    by (simp add: negotiation_defs isValidHandshake_def negotiate_def checkVersionCompatibility_def
        Let_def parseVersion_def Number_def new_Date_def getMonthsDifference_def)
  have d: "capabilities handshake_2025_12 = Some [''stream'', ''other'', ''async'']"
    by (simp add: handshake_2025_12_def)
  have e: "negotiateCapabilities VersionNegotiator [''stream'', ''other'', ''async''] = [''stream'', ''async'']"
    by (simp add: negotiateCapabilities_def VersionNegotiator_def)
  show ?thesis
    using a b c d e
      negotiateCapabilities_intersection[of VersionNegotiator "[''stream'', ''other'', ''async'']"
        "[''async'', ''stream'', ''other'']"
        "VersionNegotiator\<lparr>serverCapabilities := [''stream'', ''code_exec'', ''registry'', ''async'']\<rparr>"
        handshake_2025_12]
    by blast
qed

section \<open>Properties of the tool loader\<close>

subsection \<open>loadTool\<close>

lemma loadTool_cached:
  "map_of (toolCache l) toolName = Some t \<Longrightarrow> loadTool imp l toolName = (Some t, l)"
  by (simp add: loadTool_def)

lemma loadTool_success_cached:
  "loadTool imp l toolName = (Some t, l1) \<Longrightarrow> map_of (toolCache l1) toolName = Some t"
  by (auto simp: loadTool_def Let_def update_conv' split: option.splits prod.splits)

lemma loadTool_keeps:
  "map_of (toolCache l) toolName = Some t \<Longrightarrow>
   map_of (toolCache (snd (loadTool imp l other))) toolName = Some t"
  by (auto simp: loadTool_def Let_def update_conv' split: option.splits prod.splits)

lemma load_all_keeps:
  "map_of (toolCache l) toolName = Some t \<Longrightarrow>
   map_of (toolCache (load_all imp l names)) toolName = Some t"
proof (induction names arbitrary: l)
  case Nil
  then show ?case by (simp add: load_all_def)
next
  case (Cons nm names)
  from Cons.IH[OF loadTool_keeps[OF Cons.prems]] show ?case by (simp add: load_all_def)
qed

text \<open>
  C9: when a \<open>loadTool\<close> call for a name returns a tool, the next call for that name
  returns the same reference and leaves the loader's state as it is; the same holds
  after any number of \<open>loadTool\<close> calls for any names in between: the reference is the
  same, and the call adds no \<open>import\<close> and no creator call to the record.
\<close>

theorem loadTool_twice:
  assumes "loadTool import_module l toolName = (Some t, l1)"
  shows "loadTool import_module l1 toolName = (Some t, l1)
       \<and> fst (loadTool import_module (load_all import_module l1 names) toolName) = Some t
       \<and> imported (snd (loadTool import_module (load_all import_module l1 names) toolName))
           = imported (load_all import_module l1 names)
       \<and> creator_calls (snd (loadTool import_module (load_all import_module l1 names) toolName))
           = creator_calls (load_all import_module l1 names)"
proof -
  have c: "map_of (toolCache l1) toolName = Some t"
    using assms by (rule loadTool_success_cached)
  show ?thesis
    using loadTool_cached[OF c] loadTool_cached[OF load_all_keeps[OF c]] by simp
qed

lemmas loader_defs = loader1_def import1_def status_metadata_def list_metadata_def other_metadata_def
  loadTool_def Let_def load_all_def

theorem loadTool_twice_witness:
  "fst (loadTool import1 loader1 ''system/status'') = Some 0
   \<and> fst (loadTool import1 (snd (loadTool import1 loader1 ''system/status'')) ''system/status'') = Some 0
   \<and> fst (loadTool import1
            (load_all import1 (snd (loadTool import1 loader1 ''system/status'')) [''agents/list'', ''nope''])
            ''system/status'') = Some 0
   \<and> imported (snd (loadTool import1
            (load_all import1 (snd (loadTool import1 loader1 ''system/status'')) [''agents/list'', ''nope''])
            ''system/status'')) = [''tools/system/status.js'', ''tools/agents/list.js'']
   \<and> creator_calls (snd (loadTool import1
            (load_all import1 (snd (loadTool import1 loader1 ''system/status'')) [''agents/list'', ''nope''])
            ''system/status'')) = [''createSystemStatusTool'']"
proof -
  have one: "fst (loadTool import1 loader1 ''system/status'') = Some 0"
    by (simp add: loader_defs)
  then have first: "loadTool import1 loader1 ''system/status''
       = (Some 0, snd (loadTool import1 loader1 ''system/status''))"
    by (metis prod.collapse)
  have logs: "imported (load_all import1 (snd (loadTool import1 loader1 ''system/status'')) [''agents/list'', ''nope''])
       = [''tools/system/status.js'', ''tools/agents/list.js'']"
     "creator_calls (load_all import1 (snd (loadTool import1 loader1 ''system/status'')) [''agents/list'', ''nope''])
       = [''createSystemStatusTool'']"
    by (simp_all add: loader_defs)
  note twice = loadTool_twice[OF first, of "[''agents/list'', ''nope'']"]
  have second: "fst (loadTool import1 (snd (loadTool import1 loader1 ''system/status'')) ''system/status'') = Some 0"
    using twice by simp
  show ?thesis
    using one second twice logs by simp
qed

subsection \<open>searchTools\<close>

lemma includes_str_sublist: "includes_str s p \<longleftrightarrow> sublist p s"
  by (induction s) (auto simp: sublist_Cons_right)

lemma category_filter:
  "(case q_category query of None \<Rightarrow> True | Some c \<Rightarrow> c \<noteq> [] \<longrightarrow> category m = c)
     \<longleftrightarrow> \<not> (truthy (q_category query) \<and> Some (category m) \<noteq> q_category query)"
  by (cases "q_category query") (auto simp: truthy_def)

lemma detailLevel_filter:
  "(case q_detailLevel query of None \<Rightarrow> True | Some d \<Rightarrow> d \<noteq> [] \<longrightarrow> detailLevel m = Some d)
     \<longleftrightarrow> \<not> (truthy (q_detailLevel query) \<and> detailLevel m \<noteq> q_detailLevel query)"
  by (cases "q_detailLevel query") (auto simp: truthy_def)

lemma tags_filter:
  "(case q_tags query of
      None \<Rightarrow> True
    | Some qtags \<Rightarrow>
        (\<forall>tag \<in> set qtags. case tags m of None \<Rightarrow> False | Some ts \<Rightarrow> tag \<in> set ts))
     \<longleftrightarrow> \<not> (case q_tags query of
             None \<Rightarrow> False
           | Some qtags \<Rightarrow>
               length qtags > 0
               \<and> \<not> list_all (\<lambda>tag. tag \<in> set (case tags m of None \<Rightarrow> [] | Some ts \<Rightarrow> ts)) qtags)"
proof (cases "q_tags query")
  case None
  then show ?thesis by simp
next
  case (Some qtags)
  then show ?thesis by (cases "tags m") (auto simp: list_all_iff)
qed

lemma of_char_toLowerCase_char:
  "(of_char (toLowerCase_char c) :: nat) =
     (if (65 \<le> (of_char c :: nat) \<and> (of_char c :: nat) \<le> 90)
         \<or> (192 \<le> (of_char c :: nat) \<and> (of_char c :: nat) \<le> 222 \<and> (of_char c :: nat) \<noteq> 215)
      then of_char c + 32 else of_char c)"
  by (auto simp: toLowerCase_char_def of_char_of)

lemma toLowerCase_char_eq_iff:
  "toLowerCase_char c = toLowerCase_char d \<longleftrightarrow> same_letter c d"
proof -
  have "toLowerCase_char c = toLowerCase_char d \<longleftrightarrow>
        (of_char (toLowerCase_char c) :: nat) = of_char (toLowerCase_char d)"
    by simp
  also have "\<dots> \<longleftrightarrow> (of_char c :: nat) = of_char d \<or> capital_of c d \<or> capital_of d c"
    unfolding of_char_toLowerCase_char capital_of_def by auto
  also have "\<dots> \<longleftrightarrow> same_letter c d"
    by (simp add: same_letter_def)
  finally show ?thesis .
qed

lemma toLowerCase_eq_iff:
  "toLowerCase xs = toLowerCase ys \<longleftrightarrow> list_all2 same_letter xs ys"
proof -
  have "toLowerCase xs = toLowerCase ys \<longleftrightarrow>
        list_all2 (=) (map toLowerCase_char xs) (map toLowerCase_char ys)"
    by (simp add: toLowerCase_def list.rel_eq)
  also have "\<dots> \<longleftrightarrow> list_all2 (\<lambda>c d. toLowerCase_char c = toLowerCase_char d) xs ys"
    by (simp add: list_all2_map1 list_all2_map2)
  finally show ?thesis by (simp add: toLowerCase_char_eq_iff)
qed

lemma map_eq_append3:
  assumes "map f t = xs @ ys @ zs"
  shows "\<exists>ps mid ss. t = ps @ mid @ ss \<and> map f mid = ys"
proof -
  from assms obtain ps rest where t: "t = ps @ rest" and rest: "map f rest = ys @ zs"
    by (metis map_eq_append_conv)
  from rest obtain mid ss where "rest = mid @ ss" and "map f mid = ys"
    by (metis map_eq_append_conv)
  with t show ?thesis by blast
qed

lemma includes_toLowerCase:
  "includes_str (toLowerCase text) (toLowerCase pattern) \<longleftrightarrow> occurs_caseless pattern text"
proof
  assume "includes_str (toLowerCase text) (toLowerCase pattern)"
  then obtain xs zs where "toLowerCase text = xs @ toLowerCase pattern @ zs"
    by (auto simp: includes_str_sublist sublist_def)
  then have "map toLowerCase_char text = xs @ toLowerCase pattern @ zs"
    by (simp only: toLowerCase_def)
  from map_eq_append3[OF this] obtain ps stretch ss where t: "text = ps @ stretch @ ss"
    and m: "map toLowerCase_char stretch = toLowerCase pattern"
    by blast
  have "sublist stretch text" using t by (auto simp: sublist_def)
  moreover have "list_all2 same_letter stretch pattern"
    using m toLowerCase_eq_iff[of stretch pattern] by (simp add: toLowerCase_def)
  ultimately show "occurs_caseless pattern text"
    by (auto simp: occurs_caseless_def)
next
  assume "occurs_caseless pattern text"
  then obtain stretch where sub: "sublist stretch text" and same: "list_all2 same_letter stretch pattern"
    by (auto simp: occurs_caseless_def)
  from sub obtain ps ss where t: "text = ps @ stretch @ ss" by (auto simp: sublist_def)
  have "toLowerCase stretch = toLowerCase pattern" using same by (simp add: toLowerCase_eq_iff)
  then have "toLowerCase text = toLowerCase ps @ toLowerCase pattern @ toLowerCase ss"
    using t by (simp add: toLowerCase_def)
  then show "includes_str (toLowerCase text) (toLowerCase pattern)"
    by (auto simp: includes_str_sublist sublist_def)
qed

lemma namePattern_filter:
  "(case q_namePattern query of
      None \<Rightarrow> True
    | Some np \<Rightarrow>
        np \<noteq> [] \<longrightarrow> occurs_caseless np (name m) \<or> occurs_caseless np (description m))
     \<longleftrightarrow> \<not> (case q_namePattern query of
             None \<Rightarrow> False
           | Some np \<Rightarrow>
               np \<noteq> []
               \<and> \<not> includes_str (toLowerCase (name m)) (toLowerCase np)
               \<and> \<not> includes_str (toLowerCase (description m)) (toLowerCase np))"
  by (cases "q_namePattern query") (auto simp: includes_toLowerCase)

lemma satisfies_iff_not_skipped:
  "satisfies query m \<longleftrightarrow>
     \<not> (truthy (q_category query) \<and> Some (category m) \<noteq> q_category query)
     \<and> \<not> (truthy (q_detailLevel query) \<and> detailLevel m \<noteq> q_detailLevel query)
     \<and> \<not> (case q_tags query of
             None \<Rightarrow> False
           | Some qtags \<Rightarrow>
               length qtags > 0
               \<and> \<not> list_all (\<lambda>tag. tag \<in> set (case tags m of None \<Rightarrow> [] | Some ts \<Rightarrow> ts)) qtags)
     \<and> \<not> (case q_namePattern query of
             None \<Rightarrow> False
           | Some np \<Rightarrow>
               np \<noteq> []
               \<and> \<not> includes_str (toLowerCase (name m)) (toLowerCase np)
               \<and> \<not> includes_str (toLowerCase (description m)) (toLowerCase np))"
  unfolding satisfies_def
  by (simp only: category_filter detailLevel_filter tags_filter namePattern_filter)

lemma search_loop_step:
  "search_loop query (m # ms) results =
     (if satisfies query m then search_loop query ms (results @ [m])
      else search_loop query ms results)"
proof -
  define A where "A \<longleftrightarrow> truthy (q_category query) \<and> Some (category m) \<noteq> q_category query"
  define B where "B \<longleftrightarrow> truthy (q_detailLevel query) \<and> detailLevel m \<noteq> q_detailLevel query"
  define C where "C \<longleftrightarrow> (case q_tags query of
             None \<Rightarrow> False
           | Some qtags \<Rightarrow>
               length qtags > 0
               \<and> \<not> list_all (\<lambda>tag. tag \<in> set (case tags m of None \<Rightarrow> [] | Some ts \<Rightarrow> ts)) qtags)"
  define D where "D \<longleftrightarrow> (case q_namePattern query of
             None \<Rightarrow> False
           | Some np \<Rightarrow>
               np \<noteq> []
               \<and> \<not> includes_str (toLowerCase (name m)) (toLowerCase np)
               \<and> \<not> includes_str (toLowerCase (description m)) (toLowerCase np))"
  have loop: "search_loop query (m # ms) results =
     (if A then search_loop query ms results
      else if B then search_loop query ms results
      else if C then search_loop query ms results
      else if D then search_loop query ms results
      else search_loop query ms (results @ [m]))"
    unfolding A_def B_def C_def D_def by (rule search_loop.simps(2))
  have sat: "satisfies query m \<longleftrightarrow> \<not> A \<and> \<not> B \<and> \<not> C \<and> \<not> D"
    unfolding A_def B_def C_def D_def by (rule satisfies_iff_not_skipped)
  show ?thesis unfolding loop sat by simp
qed

lemma search_loop_filter:
  "search_loop query ms results = results @ filter (satisfies query) ms"
proof (induction ms arbitrary: results)
  case Nil
  then show ?case by simp
next
  case (Cons m ms)
  show ?case
    by (simp only: search_loop_step Cons.IH filter.simps split: if_split) simp
qed

lemma mset_insert_by: "mset (insert_by cmp a bs) = add_mset a (mset bs)"
  by (induction bs) auto

lemma set_insert_by: "set (insert_by cmp a bs) = insert a (set bs)"
  by (induction bs) auto

lemma mset_sort_by: "mset (sort_by cmp xs) = mset xs"
  by (induction xs) (auto simp: sort_by_def mset_insert_by)

lemma sorted_insert_by:
  assumes tp: "total_preorder cmp"
    and srt: "sorted_wrt (\<lambda>a b. cmp (name a) (name b) \<le> 0) bs"
  shows "sorted_wrt (\<lambda>a b. cmp (name a) (name b) \<le> 0) (insert_by cmp a bs)"
  using srt
proof (induction bs)
  case Nil
  then show ?case by simp
next
  case (Cons b bs)
  from tp have total: "\<And>x y. cmp x y \<le> 0 \<or> cmp y x \<le> 0"
    and trans: "\<And>x y z. cmp x y \<le> 0 \<Longrightarrow> cmp y z \<le> 0 \<Longrightarrow> cmp x z \<le> 0"
    unfolding total_preorder_def by blast+
  show ?case
  proof (cases "cmp (name a) (name b) \<le> 0")
    case True
    then have "\<forall>y \<in> set bs. cmp (name a) (name y) \<le> 0"
      using Cons.prems trans by auto
    then show ?thesis using True Cons.prems by simp
  next
    case False
    then have "cmp (name b) (name a) \<le> 0" using total by blast
    then show ?thesis
      using False Cons by (auto simp: set_insert_by)
  qed
qed

lemma sorted_sort_by:
  "total_preorder cmp \<Longrightarrow> sorted_wrt (\<lambda>a b. cmp (name a) (name b) \<le> 0) (sort_by cmp xs)"
proof (induction xs)
  case Nil
  then show ?case by (simp add: sort_by_def)
next
  case (Cons x xs)
  then have "sorted_wrt (\<lambda>a b. cmp (name a) (name b) \<le> 0) (insert_by cmp x (sort_by cmp xs))"
    by (intro sorted_insert_by) auto
  then show ?case by (simp add: sort_by_def)
qed

lemma letters_collation_le:
  "letters_collation a b \<le> 0 \<longleftrightarrow>
     toLowerCase a < toLowerCase b \<or> (toLowerCase a = toLowerCase b \<and> b \<le> a)"
  by (auto simp: letters_collation_def)

lemma total_letters_collation: "total_preorder letters_collation"
  unfolding total_preorder_def letters_collation_le by auto

text \<open>
  C8, as stated, fails in its last part: the result is not in the lexicographic order of
  the names. The comparator of the sort is \<open>localeCompare\<close>, which puts \<open>alpha\<close> before
  \<open>Zeta\<close>, while \<open>Zeta\<close> is the smaller string: the capital Z is the code unit 90 and
  the small a is 97. A loader that has scanned the two tools returns them, for the
  query without filters, in the order \<open>alpha\<close>, \<open>Zeta\<close>.
\<close>

theorem searchTools_not_lexicographic_counterexample:
  "letters_collation ''alpha'' ''Zeta'' = - 1
   \<and> searchTools letters_collation loader_alpha_zeta no_filter = [alpha_metadata, zeta_metadata]
   \<and> map name (searchTools letters_collation loader_alpha_zeta no_filter) = [''alpha'', ''Zeta'']
   \<and> ''Zeta'' < ''alpha''
   \<and> \<not> sorted (map name (searchTools letters_collation loader_alpha_zeta no_filter))"
  by code_simp

text \<open>
  C8, amended: \<open>searchTools\<close> returns the scanned entries that satisfy every given filter,
  each as often as it is scanned and no other entry: a tag filter admits the entries
  that have every query tag, a name pattern must occur without regard to case in the
  name or in the description, category and detail level must be equal when given. The
  result is in ascending order of the names under the comparator of the sort,
  \<open>localeCompare\<close>, the collation of the runtime's locale.
\<close>

theorem searchTools_filters_and_sorts:
  assumes "total_preorder localeCompare"
  shows "mset (searchTools localeCompare l query)
           = mset (filter (satisfies query) (map snd (metadataCache l)))
       \<and> sorted_wrt (\<lambda>a b. localeCompare (name a) (name b) \<le> 0)
           (searchTools localeCompare l query)"
  using assms by (simp add: searchTools_def mset_sort_by search_loop_filter sorted_sort_by)

theorem searchTools_filters_and_sorts_witness:
  "total_preorder letters_collation
   \<and> filter (satisfies query_ab) (map snd (metadataCache loader1))
       = [status_metadata, list_metadata]
   \<and> searchTools letters_collation loader1 query_ab = [list_metadata, status_metadata]
   \<and> mset (searchTools letters_collation loader1 query_ab)
       = mset (filter (satisfies query_ab) (map snd (metadataCache loader1)))
   \<and> sorted_wrt (\<lambda>a b. letters_collation (name a) (name b) \<le> 0)
       (searchTools letters_collation loader1 query_ab)"
proof -
  have kept: "filter (satisfies query_ab) (map snd (metadataCache loader1))
       = [status_metadata, list_metadata]"
    by code_simp
  have found: "searchTools letters_collation loader1 query_ab = [list_metadata, status_metadata]"
    by code_simp
  show ?thesis
    using searchTools_filters_and_sorts[OF total_letters_collation, of loader1 query_ab]
      total_letters_collation kept found
    by simp
qed

section \<open>Properties of the protocol server\<close>

lemma upgradeToolSchema_address:
  assumes "case dollar_schema schema of None \<Rightarrow> True
           | Some uri \<Rightarrow> uri = [] \<or> \<not> includes_str uri ''2020-12''"
  shows "dollar_schema (upgradeToolSchema empty_obj schema)
           = Some ''https://json-schema.org/draft/2020-12/schema''"
  using assms by (auto simp: upgradeToolSchema_def split: option.splits)

lemma validateInput_2020_12:
  assumes "dollar_schema schema = Some ''https://json-schema.org/draft/2020-12/schema''"
    and "map_of (schemaCache v) (stringify lib schema) = None"
  shows "validateInput lib v schema input = (Invalid [([], ''Schema validation failed'')], v)"
  using assms by (simp add: validateInput_def getValidator_def compile_def Let_def)







end
